theory Spec2Isabelle
  imports
    Main
    "HOL-Library.Char_ord"
    "HOL-Library.List_Lexorder"
    "HOL-Library.Product_Lexorder"
begin

section \<open>Python values and exceptions\<close>

text \<open>
  The validators of \<^verbatim>\<open>SnykIssue\<close> run in \<^verbatim>\<open>mode="before"\<close>, on whatever value
  the caller passed, and branch on its run-time type with \<^verbatim>\<open>isinstance\<close>. The type
  \<open>pyval\<close> holds the values they can tell apart: a string, a list, \<^verbatim>\<open>None\<close>, a
  \<^verbatim>\<open>datetime\<close>, and the other JSON values (booleans, numbers, objects), none of
  which is a string or a list.
\<close>

datatype datetime = Datetime nat nat nat nat nat nat nat

datatype pyval =
    PNone
  | PBool bool
  | PInt int
  | PStr string
  | PList "pyval list"
  | PDict "(string \<times> pyval) list"
  | PDatetime datetime

text \<open>
  Exceptions deriving from \<^verbatim>\<open>Exception\<close>, each with its message.
  \<^verbatim>\<open>json.JSONDecodeError\<close> is a subclass of \<^verbatim>\<open>ValueError\<close>, so
  \<^verbatim>\<open>except ValueError\<close> catches both.
\<close>

datatype py_error =
    ValueError string
  | JSONDecodeError string
  | TypeError string
  | ValidationError string

fun is_ValueError :: "py_error \<Rightarrow> bool" where
  "is_ValueError (ValueError m) = True"
| "is_ValueError (JSONDecodeError m) = True"
| "is_ValueError (TypeError m) = False"
| "is_ValueError (ValidationError m) = False"

fun is_JSONDecodeError :: "py_error \<Rightarrow> bool" where
  "is_JSONDecodeError (JSONDecodeError m) = True"
| "is_JSONDecodeError (ValueError m) = False"
| "is_JSONDecodeError (TypeError m) = False"
| "is_JSONDecodeError (ValidationError m) = False"

text \<open>\<^verbatim>\<open>str(e)\<close> of an exception: its message.\<close>

fun str_error :: "py_error \<Rightarrow> string" where
  "str_error (ValueError m) = m"
| "str_error (JSONDecodeError m) = m"
| "str_error (TypeError m) = m"
| "str_error (ValidationError m) = m"

text \<open>\<^verbatim>\<open>str(n)\<close> of a non-negative integer: its decimal digits.\<close>

definition digit_char :: "nat \<Rightarrow> char" where
  "digit_char d = char_of (48 + d)"

function str_nat :: "nat \<Rightarrow> string" where
  "str_nat n = (if n < 10 then [digit_char n] else str_nat (n div 10) @ [digit_char (n mod 10)])"
  by pat_completeness auto
termination
  by (relation "measure id") auto

section \<open>The record model (snyk\_insights.py)\<close>

record snyk_issue =
  issue_severity_rank :: int
  issue_severity :: string
  score :: int
  problem_title :: string
  cve :: "string list"
  cve_url :: "string list"
  cwe :: "string list"
  project_name :: string
  project_url :: string
  exploit_maturity :: "string option"
  computed_fixability :: string
  first_introduced :: "datetime option"
  product_name :: "string option"
  issue_url :: string
  issue_status_indicator :: string
  issue_type :: string

text \<open>
  \<^verbatim>\<open>SnykIssue.parse_json_array\<close>. The library function \<^verbatim>\<open>json.loads\<close> is the
  parameter \<open>loads\<close>: on a string it returns the parsed value or raises. Only
  \<^verbatim>\<open>json.JSONDecodeError\<close> is caught; any other exception leaves the validator.
\<close>

definition parse_json_array :: "(string \<Rightarrow> py_error + pyval) \<Rightarrow> pyval \<Rightarrow> py_error + pyval" where
  "parse_json_array loads v =
     (case v of
        PStr s \<Rightarrow>
          (case loads s of
             Inr parsed \<Rightarrow> (case parsed of PList xs \<Rightarrow> Inr parsed | _ \<Rightarrow> Inr (PList []))
           | Inl e \<Rightarrow> (if is_JSONDecodeError e then Inr (PList []) else Inl e))
      | PList xs \<Rightarrow> Inr v
      | _ \<Rightarrow> Inr (PList []))"

text \<open>
  \<^verbatim>\<open>SnykIssue.parse_datetime\<close>. The library function \<^verbatim>\<open>datetime.strptime\<close> is the
  parameter \<open>strptime\<close>, taking the text and the format.
\<close>

definition fmt_micro :: string where
  "fmt_micro = ''%Y-%m-%d %H:%M:%S.%f''"

definition fmt_seconds :: string where
  "fmt_seconds = ''%Y-%m-%d %H:%M:%S''"

definition parse_datetime ::
  "(string \<Rightarrow> string \<Rightarrow> py_error + datetime) \<Rightarrow> pyval \<Rightarrow> py_error + pyval" where
  "parse_datetime strptime v =
     (if v = PNone \<or> v = PStr [] then Inr PNone
      else case v of
        PStr s \<Rightarrow>
          (case strptime s fmt_micro of
             Inr d \<Rightarrow> Inr (PDatetime d)
           | Inl e \<Rightarrow>
               if is_ValueError e then
                 (case strptime s fmt_seconds of
                    Inr d \<Rightarrow> Inr (PDatetime d)
                  | Inl e' \<Rightarrow>
                      if is_ValueError e' then Inl (ValueError (''Unable to parse datetime: '' @ s))
                      else Inl e')
               else Inl e)
      | _ \<Rightarrow> Inr v)"

section \<open>The CSV ingestor (snyk\_insights.py)\<close>

text \<open>
  \<^verbatim>\<open>read_csv_to_models\<close>. The rows are those \<^verbatim>\<open>csv.DictReader\<close> yields, in file
  order; the constructor \<^verbatim>\<open>SnykIssue(**row)\<close>, which pydantic generates from the
  class declaration, is the parameter \<open>ctor\<close>. The state of the loop is the list
  \<^verbatim>\<open>issues\<close> and the lines printed to \<^verbatim>\<open>sys.stderr\<close>.
\<close>

definition warning :: "nat \<Rightarrow> py_error \<Rightarrow> string" where
  "warning row_num e = ''Warning: Failed to parse row '' @ str_nat row_num @ '': '' @ str_error e"

fun read_rows ::
  "('row \<Rightarrow> py_error + snyk_issue) \<Rightarrow> nat \<Rightarrow> 'row list \<Rightarrow> snyk_issue list \<times> string list
     \<Rightarrow> snyk_issue list \<times> string list" where
  "read_rows ctor row_num [] (issues, stderr) = (issues, stderr)"
| "read_rows ctor row_num (row # rows) (issues, stderr) =
     (case ctor row of
        Inr issue \<Rightarrow> read_rows ctor (row_num + 1) rows (issues @ [issue], stderr)
      | Inl e \<Rightarrow> read_rows ctor (row_num + 1) rows (issues, stderr @ [warning row_num e]))"

definition read_csv_to_models ::
  "('row \<Rightarrow> py_error + snyk_issue) \<Rightarrow> 'row list \<Rightarrow> snyk_issue list \<times> string list" where
  "read_csv_to_models ctor rows = read_rows ctor 2 rows ([], [])"

section \<open>The aggregator (html\_report.py)\<close>

subsection \<open>Dictionaries in insertion order\<close>

text \<open>
  A Python \<^verbatim>\<open>dict\<close> iterates in the order its keys were first inserted, and
  \<^verbatim>\<open>sorted\<close> is stable, so the order matters: a dictionary is an association list
  with distinct keys. \<open>upd_default k d f\<close> is \<^verbatim>\<open>m[k] = f(m[k])\<close> on a
  \<^verbatim>\<open>defaultdict\<close> whose factory returns \<open>d\<close>: an existing key keeps its place, a
  new key goes to the end.
\<close>

fun upd_default :: "'k \<Rightarrow> 'v \<Rightarrow> ('v \<Rightarrow> 'v) \<Rightarrow> ('k \<times> 'v) list \<Rightarrow> ('k \<times> 'v) list" where
  "upd_default k d f [] = [(k, f d)]"
| "upd_default k d f ((k', v) # m) =
     (if k' = k then (k', f v) # m else (k', v) # upd_default k d f m)"

text \<open>\<^verbatim>\<open>m[k] = v\<close> on a plain \<^verbatim>\<open>dict\<close>.\<close>

fun dict_set :: "'k \<Rightarrow> 'v \<Rightarrow> ('k \<times> 'v) list \<Rightarrow> ('k \<times> 'v) list" where
  "dict_set k v [] = [(k, v)]"
| "dict_set k v ((k', v') # m) =
     (if k' = k then (k', v) # m else (k', v') # dict_set k v m)"

text \<open>
  \<^verbatim>\<open>sorted(xs, key=f, reverse=True)\<close>: CPython reverses the list, sorts it stably in
  ascending order and reverses the result, so equal keys keep their original order.
\<close>

definition sorted_reverse :: "('a \<Rightarrow> nat) \<Rightarrow> 'a list \<Rightarrow> 'a list" where
  "sorted_reverse f xs = rev (sort_key f (rev xs))"

subsection \<open>Accumulators and output groups\<close>

record group_data =
  issues :: "snyk_issue list"
  severity_counts :: "(string \<times> nat) list"
  problem_titles :: "string set"
  fixable_count :: nat

record cve_cwe_data = group_data +
  projects :: "(string \<times> string) list"

record project_data = group_data +
  cve_cwe_pairs :: "string set"

record project_entry =
  name :: string
  url :: string

record group_out =
  g_total_issues :: nat
  g_fixable_count :: nat
  g_severity_counts :: "(string \<times> nat) list"
  g_problem_titles :: "string list"

record cve_cwe_group = group_out +
  g_cve :: string
  g_cwe :: string
  g_projects :: "project_entry list"

record project_group = group_out +
  g_project_name :: string
  g_project_url :: string
  g_cve_cwe_pairs :: "string list"

definition new_cve_cwe_data :: cve_cwe_data where
  "new_cve_cwe_data =
     \<lparr>issues = [], severity_counts = [], problem_titles = {}, fixable_count = 0, projects = []\<rparr>"

definition new_project_data :: project_data where
  "new_project_data =
     \<lparr>issues = [], severity_counts = [], problem_titles = {}, fixable_count = 0,
      cve_cwe_pairs = {}\<rparr>"

text \<open>\<^verbatim>\<open>issue.cve if issue.cve else ['No CVE']\<close>, and the same for the CWE list.\<close>

definition cves_of :: "snyk_issue \<Rightarrow> string list" where
  "cves_of issue = (if cve issue \<noteq> [] then cve issue else [''No CVE''])"

definition cwes_of :: "snyk_issue \<Rightarrow> string list" where
  "cwes_of issue = (if cwe issue \<noteq> [] then cwe issue else [''No CWE''])"

subsection \<open>Grouping by CVE-CWE pair\<close>

text \<open>The five statements of the innermost loop body, on the group of \<open>key\<close>.\<close>

definition add_to_cve_cwe :: "snyk_issue \<Rightarrow> cve_cwe_data \<Rightarrow> cve_cwe_data" where
  "add_to_cve_cwe issue d =
     d\<lparr>issues := issues d @ [issue],
       severity_counts := upd_default (issue_severity issue) 0 (\<lambda>n. n + 1) (severity_counts d),
       projects := dict_set (project_name issue) (project_url issue) (projects d),
       problem_titles := insert (problem_title issue) (problem_titles d),
       fixable_count :=
         (if computed_fixability issue = ''Fixable'' then fixable_count d + 1
          else fixable_count d)\<rparr>"

definition cve_cwe_issue ::
  "snyk_issue \<Rightarrow> ((string \<times> string) \<times> cve_cwe_data) list \<Rightarrow> ((string \<times> string) \<times> cve_cwe_data) list" where
  "cve_cwe_issue issue groups =
     fold (\<lambda>c. fold (\<lambda>w. upd_default (c, w) new_cve_cwe_data (add_to_cve_cwe issue)) (cwes_of issue))
       (cves_of issue) groups"

definition cve_cwe_groups :: "snyk_issue list \<Rightarrow> ((string \<times> string) \<times> cve_cwe_data) list" where
  "cve_cwe_groups issues_in = fold cve_cwe_issue issues_in []"

definition cve_cwe_out :: "(string \<times> string) \<times> cve_cwe_data \<Rightarrow> cve_cwe_group" where
  "cve_cwe_out kd =
     \<lparr>g_total_issues = length (issues (snd kd)),
      g_fixable_count = fixable_count (snd kd),
      g_severity_counts = severity_counts (snd kd),
      g_problem_titles = sorted_list_of_set (problem_titles (snd kd)),
      g_cve = fst (fst kd),
      g_cwe = snd (fst kd),
      g_projects = map (\<lambda>(n, u). \<lparr>name = n, url = u\<rparr>) (sort (projects (snd kd)))\<rparr>"

definition prepare_data_cve_cwe :: "snyk_issue list \<Rightarrow> cve_cwe_group list" where
  "prepare_data_cve_cwe issues_in =
     map cve_cwe_out (sorted_reverse (\<lambda>x. length (issues (snd x))) (cve_cwe_groups issues_in))"

subsection \<open>Grouping by project\<close>

definition label :: "string \<Rightarrow> string \<Rightarrow> string" where
  "label c w = c @ '' + '' @ w"

definition add_to_project :: "snyk_issue \<Rightarrow> project_data \<Rightarrow> project_data" where
  "add_to_project issue d =
     (let d1 = d\<lparr>issues := issues d @ [issue],
                 severity_counts :=
                   upd_default (issue_severity issue) 0 (\<lambda>n. n + 1) (severity_counts d),
                 problem_titles := insert (problem_title issue) (problem_titles d)\<rparr>;
          d2 = fold (\<lambda>c. fold (\<lambda>w e. e\<lparr>cve_cwe_pairs := insert (label c w) (cve_cwe_pairs e)\<rparr>)
                              (cwes_of issue))
                 (cves_of issue) d1
      in d2\<lparr>fixable_count :=
               (if computed_fixability issue = ''Fixable'' then fixable_count d2 + 1
                else fixable_count d2)\<rparr>)"

definition project_issue ::
  "snyk_issue \<Rightarrow> ((string \<times> string) \<times> project_data) list \<Rightarrow> ((string \<times> string) \<times> project_data) list" where
  "project_issue issue groups =
     upd_default (project_name issue, project_url issue) new_project_data (add_to_project issue) groups"

definition project_groups :: "snyk_issue list \<Rightarrow> ((string \<times> string) \<times> project_data) list" where
  "project_groups issues_in = fold project_issue issues_in []"

definition project_out :: "(string \<times> string) \<times> project_data \<Rightarrow> project_group" where
  "project_out kd =
     \<lparr>g_total_issues = length (issues (snd kd)),
      g_fixable_count = fixable_count (snd kd),
      g_severity_counts = severity_counts (snd kd),
      g_problem_titles = sorted_list_of_set (problem_titles (snd kd)),
      g_project_name = fst (fst kd),
      g_project_url = snd (fst kd),
      g_cve_cwe_pairs = sorted_list_of_set (cve_cwe_pairs (snd kd))\<rparr>"

definition prepare_data_project :: "snyk_issue list \<Rightarrow> project_group list" where
  "prepare_data_project issues_in =
     map project_out (sorted_reverse (\<lambda>x. length (issues (snd x))) (project_groups issues_in))"

subsection \<open>The summary\<close>

datatype report_groups = CveCweGroups "cve_cwe_group list" | ProjectGroups "project_group list"

fun len_groups :: "report_groups \<Rightarrow> nat" where
  "len_groups (CveCweGroups gs) = length gs"
| "len_groups (ProjectGroups gs) = length gs"

record report =
  r_total_issues :: nat
  r_total_groups :: nat
  r_severity_counts :: "(string \<times> nat) list"
  r_fixable_count :: nat
  r_groups :: report_groups
  r_group_by :: string

definition prepare_data :: "snyk_issue list \<Rightarrow> string \<Rightarrow> report" where
  "prepare_data issues_in group_by =
     (let severity_counts =
            fold (\<lambda>issue. upd_default (issue_severity issue) 0 (\<lambda>n. n + 1)) issues_in [];
          fixable_count =
            sum_list (map (\<lambda>i. 1) (filter (\<lambda>i. computed_fixability i = ''Fixable'') issues_in));
          groups =
            (if group_by = ''project'' then ProjectGroups (prepare_data_project issues_in)
             else CveCweGroups (prepare_data_cve_cwe issues_in))
      in \<lparr>r_total_issues = length issues_in,
          r_total_groups = len_groups groups,
          r_severity_counts = severity_counts,
          r_fixable_count = fixable_count,
          r_groups = groups,
          r_group_by = group_by\<rparr>)"

section \<open>Notions used to state the properties\<close>

text \<open>
  The keys of a sequence in the order of their first occurrence, and the values a
  sequence of (key, value) events carries for one key.
\<close>

definition first_seen :: "'a list \<Rightarrow> 'a list" where
  "first_seen xs = rev (remdups (rev xs))"

definition members :: "('k \<times> 'x) list \<Rightarrow> 'k \<Rightarrow> 'x list" where
  "members evs k = map snd (filter (\<lambda>e. fst e = k) evs)"

text \<open>
  The (cve, cwe) pairs of a record: the product of its two lists, each replaced by its
  sentinel when empty, in the order of the nested loops.
\<close>

definition expand :: "snyk_issue \<Rightarrow> (string \<times> string) list" where
  "expand issue = List.product (cves_of issue) (cwes_of issue)"

text \<open>
  The accumulation events of the two strategies: which record goes to which key, in the
  order in which the loops run.
\<close>

definition cve_cwe_events :: "snyk_issue list \<Rightarrow> ((string \<times> string) \<times> snyk_issue) list" where
  "cve_cwe_events issues_in = concat (map (\<lambda>i. map (\<lambda>k. (k, i)) (expand i)) issues_in)"

definition project_events :: "snyk_issue list \<Rightarrow> ((string \<times> string) \<times> snyk_issue) list" where
  "project_events issues_in = map (\<lambda>i. ((project_name i, project_url i), i)) issues_in"

text \<open>
  The records accumulated into the group of a (cve, cwe) pair: \<open>accumulated\<close> lists a
  record once for every occurrence of the pair in its expansion, \<open>group_records\<close>
  lists it once. \<open>of_project\<close> holds the records of a (project name, project URL) key.
\<close>

definition accumulated :: "snyk_issue list \<Rightarrow> string \<times> string \<Rightarrow> snyk_issue list" where
  "accumulated issues_in k = concat (map (\<lambda>i. replicate (count_list (expand i) k) i) issues_in)"

definition group_records :: "snyk_issue list \<Rightarrow> string \<times> string \<Rightarrow> snyk_issue list" where
  "group_records issues_in k = filter (\<lambda>i. k \<in> set (expand i)) issues_in"

definition of_project :: "snyk_issue list \<Rightarrow> string \<times> string \<Rightarrow> snyk_issue list" where
  "of_project issues_in k = filter (\<lambda>i. (project_name i, project_url i) = k) issues_in"

text \<open>\<^verbatim>\<open>counts.get(s, 0)\<close> on a severity histogram.\<close>

definition sev_count :: "(string \<times> nat) list \<Rightarrow> string \<Rightarrow> nat" where
  "sev_count counts s = (case map_of counts s of None \<Rightarrow> 0 | Some n \<Rightarrow> n)"

text \<open>
  The (name, URL) entry of a record, and the URL of the last record of a given project
  name.
\<close>

definition project_pair :: "snyk_issue \<Rightarrow> project_entry" where
  "project_pair i = \<lparr>name = project_name i, url = project_url i\<rparr>"

definition last_url :: "snyk_issue list \<Rightarrow> string \<Rightarrow> string" where
  "last_url ms n = project_url (last (filter (\<lambda>i. project_name i = n) ms))"

text \<open>
  A library call that raises nothing but the exceptions in \<open>P\<close>: the documented
  behaviour of \<^verbatim>\<open>json.loads\<close> on a string (\<^verbatim>\<open>JSONDecodeError\<close>) and of
  \<^verbatim>\<open>datetime.strptime\<close> on two strings (\<^verbatim>\<open>ValueError\<close>).
\<close>

definition only_raises :: "(py_error \<Rightarrow> bool) \<Rightarrow> py_error + 'a \<Rightarrow> bool" where
  "only_raises P r = (case r of Inl e \<Rightarrow> P e | Inr x \<Rightarrow> True)"

subsection \<open>Concrete inputs\<close>

text \<open>
  The values of \<^verbatim>\<open>json.loads\<close>, \<^verbatim>\<open>json.dumps\<close> and \<^verbatim>\<open>datetime.strptime\<close> at
  the few inputs the examples use; elsewhere the tables raise the library's error.
\<close>

definition ex_loads :: "string \<Rightarrow> py_error + pyval" where
  "ex_loads s =
     (if s = ''[\"A\", \"B\"]'' then Inr (PList [PStr ''A'', PStr ''B''])
      else if s = ''{}'' then Inr (PDict [])
      else Inl (JSONDecodeError ''Expecting value: line 1 column 1 (char 0)''))"


definition ex_dumps :: "pyval \<Rightarrow> string" where
  "ex_dumps v = (if v = PList [PStr ''A'', PStr ''B''] then ''[\"A\", \"B\"]'' else ''null'')"

definition ex_strptime :: "string \<Rightarrow> string \<Rightarrow> py_error + datetime" where
  "ex_strptime s f =
     (if s = ''2024-01-02 03:04:05'' \<and> f = ''%Y-%m-%d %H:%M:%S'' then Inr (Datetime 2024 1 2 3 4 5 0)
      else Inl (ValueError ''time data does not match format''))"

definition mk_issue ::
  "string \<Rightarrow> string \<Rightarrow> string list \<Rightarrow> string list \<Rightarrow> string \<Rightarrow> string \<Rightarrow> string \<Rightarrow> snyk_issue" where
  "mk_issue sev title cves cwes pname purl fix =
     \<lparr>issue_severity_rank = 1, issue_severity = sev, score = 0, problem_title = title,
      cve = cves, cve_url = [], cwe = cwes, project_name = pname, project_url = purl,
      exploit_maturity = None, computed_fixability = fix, first_introduced = None,
      product_name = None, issue_url = ''https://app/issue'', issue_status_indicator = ''Open'',
      issue_type = ''vuln''\<rparr>"

definition ex_two_cves :: snyk_issue where
  "ex_two_cves = mk_issue ''high'' ''Prototype Pollution'' [''CVE-1'', ''CVE-2''] [''CWE-A'']
     ''api'' ''https://app/api'' ''Fixable''"

definition ex_no_ids :: snyk_issue where
  "ex_no_ids = mk_issue ''low'' ''Hardcoded Secret'' [] [] ''api'' ''https://app/api'' ''No Fix''"

definition ex_moved :: snyk_issue where
  "ex_moved = mk_issue ''low'' ''Prototype Pollution'' [''CVE-1''] [''CWE-A'']
     ''api'' ''https://app/api-v2'' ''fixable''"

definition ex_web :: snyk_issue where
  "ex_web = mk_issue ''medium'' ''Cross-site Scripting'' [''CVE-1''] [''CWE-A'']
     ''web'' ''https://app/web'' ''Fixable''"

definition ex_same_name :: "snyk_issue list" where
  "ex_same_name = [ex_two_cves, ex_moved]"

definition ex_two_projects :: "snyk_issue list" where
  "ex_two_projects = [ex_no_ids, ex_web, ex_two_cves]"

text \<open>
  A stand-in for the generated constructor on rows given as association lists: it
  rejects a row without the required column \<^verbatim>\<open>ISSUE_URL\<close>.
\<close>

definition ex_ctor :: "(string \<times> string) list \<Rightarrow> py_error + snyk_issue" where
  "ex_ctor row =
     (case map_of row ''ISSUE_URL'' of
        None \<Rightarrow> Inl (ValidationError ''ISSUE_URL: Field required'')
      | Some u \<Rightarrow> Inr (ex_no_ids\<lparr>issue_url := u\<rparr>))"

definition ex_rows :: "(string \<times> string) list list" where
  "ex_rows = [[(''ISSUE_URL'', ''u1'')], [(''SCORE'', ''7'')], [(''ISSUE_URL'', ''u3'')]]"

section \<open>Insertion-ordered dictionaries as groupings\<close>

lemma first_seen_snoc:
  "first_seen (xs @ [x]) = (if x \<in> set xs then first_seen xs else first_seen xs @ [x])"
  by (simp add: first_seen_def)

lemma remdups_snoc: "remdups (ys @ [x]) = filter (\<lambda>y. y \<noteq> x) (remdups ys) @ [x]"
  by (induction ys) auto

lemma first_seen_Cons: "first_seen (x # xs) = x # filter (\<lambda>y. y \<noteq> x) (first_seen xs)"
  by (simp add: first_seen_def remdups_snoc rev_filter)

lemma first_seen_Nil: "first_seen [] = []"
  by (simp add: first_seen_def)

lemma set_first_seen: "set (first_seen xs) = set xs"
  by (simp add: first_seen_def)

lemma distinct_first_seen: "distinct (first_seen xs)"
  by (simp add: first_seen_def)

lemma upd_default_map_in:
  "k \<in> set ks \<Longrightarrow> distinct ks \<Longrightarrow>
   upd_default k d f (map (\<lambda>j. (j, G j)) ks) = map (\<lambda>j. (j, if j = k then f (G j) else G j)) ks"
  by (induction ks) auto

lemma upd_default_map_notin:
  "k \<notin> set ks \<Longrightarrow>
   upd_default k d f (map (\<lambda>j. (j, G j)) ks) = map (\<lambda>j. (j, G j)) ks @ [(k, f d)]"
  by (induction ks) auto

lemma members_snoc:
  "members (evs @ [(k, x)]) j = (if j = k then members evs j @ [x] else members evs j)"
  by (auto simp: members_def)

lemma members_notin: "k \<notin> fst ` set evs \<Longrightarrow> members evs k = []"
  by (induction evs) (auto simp: members_def)

lemma fold_upd_default:
  "fold (\<lambda>e. upd_default (fst e) d (f (snd e))) evs [] =
   map (\<lambda>k. (k, fold f (members evs k) d)) (first_seen (map fst evs))"
proof (induction evs rule: rev_induct)
  case Nil
  show ?case by (simp add: first_seen_Nil)
next
  case (snoc e evs)
  obtain k x where e: "e = (k, x)" by (cases e)
  let ?G = "\<lambda>j. fold f (members evs j) d"
  show ?case
  proof (cases "k \<in> set (map fst evs)")
    case True
    then have "k \<in> set (first_seen (map fst evs))" by (simp add: set_first_seen)
    then show ?thesis
      using snoc True
      by (simp add: e first_seen_snoc upd_default_map_in [where G = ?G] distinct_first_seen members_snoc)
  next
    case False
    then have "k \<notin> set (first_seen (map fst evs))" by (simp add: set_first_seen)
    moreover have "members evs k = []" using False by (simp add: members_notin)
    ultimately show ?thesis
      using snoc False
      by (simp add: e first_seen_snoc upd_default_map_notin [where G = ?G] members_snoc)
  qed
qed

lemma fold_product:
  "fold (\<lambda>c. fold (\<lambda>w. h (c, w)) ws) cs g = fold h (List.product cs ws) g"
proof (induction cs arbitrary: g)
  case Nil
  show ?case by simp
next
  case (Cons c cs)
  have "fold (\<lambda>w. h (c, w)) ws g = fold h (map (Pair c) ws) g" for g
    by (simp add: fold_map comp_def)
  then show ?case using Cons by simp
qed

lemma cve_cwe_issue_events:
  "cve_cwe_issue issue g =
   fold (\<lambda>e. upd_default (fst e) new_cve_cwe_data (add_to_cve_cwe (snd e)))
     (map (\<lambda>k. (k, issue)) (expand issue)) g"
  unfolding cve_cwe_issue_def expand_def
  by (simp add: fold_product [where h = "\<lambda>k. upd_default k new_cve_cwe_data (add_to_cve_cwe issue)"]
      fold_map comp_def)

lemma cve_cwe_groups_fold:
  "fold cve_cwe_issue rs g =
   fold (\<lambda>e. upd_default (fst e) new_cve_cwe_data (add_to_cve_cwe (snd e))) (cve_cwe_events rs) g"
  by (induction rs arbitrary: g) (simp_all add: cve_cwe_events_def cve_cwe_issue_events)

lemma cve_cwe_groups_char:
  "cve_cwe_groups rs =
   map (\<lambda>k. (k, fold add_to_cve_cwe (members (cve_cwe_events rs) k) new_cve_cwe_data))
     (first_seen (map fst (cve_cwe_events rs)))"
  by (simp add: cve_cwe_groups_def cve_cwe_groups_fold fold_upd_default)

lemma project_groups_fold:
  "fold project_issue rs g =
   fold (\<lambda>e. upd_default (fst e) new_project_data (add_to_project (snd e))) (project_events rs) g"
  by (induction rs arbitrary: g) (simp_all add: project_events_def project_issue_def)

lemma project_groups_char:
  "project_groups rs =
   map (\<lambda>k. (k, fold add_to_project (members (project_events rs) k) new_project_data))
     (first_seen (map fst (project_events rs)))"
  by (simp add: project_groups_def project_groups_fold fold_upd_default)

subsection \<open>The events of the two strategies\<close>

lemma members_events_one:
  "members (map (\<lambda>k. (k, i)) ps) k = replicate (count_list ps k) i"
  by (induction ps) (auto simp: members_def)

lemma members_append: "members (xs @ ys) k = members xs k @ members ys k"
  by (simp add: members_def)

lemma members_cve_cwe: "members (cve_cwe_events rs) k = accumulated rs k"
  by (induction rs) (simp_all add: cve_cwe_events_def accumulated_def members_append members_events_one, simp add: members_def)

lemma members_project: "members (project_events rs) k = of_project rs k"
  by (induction rs) (auto simp: project_events_def of_project_def members_def)

lemma keys_cve_cwe: "map fst (cve_cwe_events rs) = concat (map expand rs)"
  by (induction rs) (simp_all add: cve_cwe_events_def comp_def)

lemma keys_project: "map fst (project_events rs) = map (\<lambda>i. (project_name i, project_url i)) rs"
  by (simp add: project_events_def comp_def)

lemma count_list_distinct: "distinct xs \<Longrightarrow> count_list xs x = (if x \<in> set xs then 1 else 0)"
  by (induction xs) auto

lemma distinct_expand: "distinct (cve i) \<Longrightarrow> distinct (cwe i) \<Longrightarrow> distinct (expand i)"
  by (simp add: expand_def cves_of_def cwes_of_def distinct_product)

lemma length_accumulated: "length (accumulated rs k) = (\<Sum>i\<leftarrow>rs. count_list (expand i) k)"
  by (induction rs) (simp_all add: accumulated_def)

lemma accumulated_nonempty: "k \<in> set (expand i) \<Longrightarrow> i \<in> set rs \<Longrightarrow> accumulated rs k \<noteq> []"
  by (induction rs) (auto simp: accumulated_def count_list_0_iff)

lemma set_accumulated: "set (accumulated rs k) = {i \<in> set rs. k \<in> set (expand i)}"
  by (induction rs) (auto simp: accumulated_def count_list_0_iff)

lemma set_group_records: "set (accumulated rs k) = set (group_records rs k)"
  by (auto simp: set_accumulated group_records_def)

lemma last_filter_accumulated:
  "last (filter P (accumulated rs k)) = last (filter P (group_records rs k))"
proof (induction rs rule: rev_induct)
  case Nil
  show ?case by (simp add: accumulated_def group_records_def)
next
  case (snoc i rs)
  have a: "accumulated (rs @ [i]) k = accumulated rs k @ replicate (count_list (expand i) k) i"
    by (simp add: accumulated_def)
  have g: "group_records (rs @ [i]) k = group_records rs k @ (if k \<in> set (expand i) then [i] else [])"
    by (simp add: group_records_def)
  show ?case
  proof (cases "P i \<and> k \<in> set (expand i)")
    case True
    then have "count_list (expand i) k \<noteq> 0" by (simp add: count_list_0_iff)
    then have "replicate (count_list (expand i) k) i \<noteq> []" by simp
    with True show ?thesis by (simp add: a g)
  next
    case False
    then have "filter P (replicate (count_list (expand i) k) i) = []"
      by (auto simp: count_list_0_iff)
    with False snoc show ?thesis by (auto simp: a g)
  qed
qed

subsection \<open>What an accumulator holds\<close>

lemma fold_add_to_cve_cwe:
  "fold add_to_cve_cwe ms d =
     d\<lparr>issues := issues d @ ms,
       severity_counts :=
         fold (\<lambda>i. upd_default (issue_severity i) 0 (\<lambda>n. n + 1)) ms (severity_counts d),
       projects := fold (\<lambda>i. dict_set (project_name i) (project_url i)) ms (projects d),
       problem_titles := problem_titles d \<union> problem_title ` set ms,
       fixable_count :=
         fixable_count d + length (filter (\<lambda>i. computed_fixability i = ''Fixable'') ms)\<rparr>"
  by (induction ms arbitrary: d) (auto simp: add_to_cve_cwe_def)

lemma fold_labels:
  "fold (\<lambda>c. fold (\<lambda>w e. e\<lparr>cve_cwe_pairs := insert (label c w) (cve_cwe_pairs e)\<rparr>) ws) cs d
     = fold (\<lambda>p e. e\<lparr>cve_cwe_pairs := insert (label (fst p) (snd p)) (cve_cwe_pairs e)\<rparr>)
         (List.product cs ws) d"
  using fold_product [where h = "\<lambda>p e. e\<lparr>cve_cwe_pairs := insert (label (fst p) (snd p)) (cve_cwe_pairs e)\<rparr>"]
  by simp

lemma fold_insert_labels_rec:
  "fold (\<lambda>p e. e\<lparr>cve_cwe_pairs := insert (label (fst p) (snd p)) (cve_cwe_pairs e)\<rparr>) ps d
     = d\<lparr>cve_cwe_pairs := cve_cwe_pairs d \<union> (\<lambda>p. label (fst p) (snd p)) ` set ps\<rparr>"
  by (induction ps arbitrary: d) auto

lemma add_to_project_step:
  "add_to_project m d =
     d\<lparr>issues := issues d @ [m],
       severity_counts := upd_default (issue_severity m) 0 Suc (severity_counts d),
       problem_titles := insert (problem_title m) (problem_titles d),
       cve_cwe_pairs := cve_cwe_pairs d \<union> (\<lambda>p. label (fst p) (snd p)) ` set (expand m),
       fixable_count :=
         (if computed_fixability m = ''Fixable'' then fixable_count d + 1 else fixable_count d)\<rparr>"
  by (simp add: add_to_project_def Let_def fold_labels fold_insert_labels_rec expand_def)

lemma fold_add_to_project:
  "fold add_to_project ms d =
     d\<lparr>issues := issues d @ ms,
       severity_counts :=
         fold (\<lambda>i. upd_default (issue_severity i) 0 Suc) ms (severity_counts d),
       problem_titles := problem_titles d \<union> problem_title ` set ms,
       cve_cwe_pairs := cve_cwe_pairs d \<union> (\<Union>i\<in>set ms. (\<lambda>p. label (fst p) (snd p)) ` set (expand i)),
       fixable_count :=
         fixable_count d + length (filter (\<lambda>i. computed_fixability i = ''Fixable'') ms)\<rparr>"
  by (induction ms arbitrary: d) (auto simp: add_to_project_step Un_assoc)

lemma issues_fold_cve_cwe: "issues (fold add_to_cve_cwe ms new_cve_cwe_data) = ms"
  by (simp add: fold_add_to_cve_cwe new_cve_cwe_data_def)

lemma issues_fold_project: "issues (fold add_to_project ms new_project_data) = ms"
  by (simp add: fold_add_to_project new_project_data_def)

lemma sum_upd_default:
  "sum_list (map snd (upd_default k 0 Suc m)) = Suc (sum_list (map snd m))"
  by (induction m) auto

lemma sum_tally:
  "sum_list (map snd (fold (\<lambda>i. upd_default (h i) 0 Suc) ms m)) = sum_list (map snd m) + length ms"
  by (induction ms arbitrary: m) (auto simp: sum_upd_default)

lemma fold_const_Suc: "fold (\<lambda>x. Suc) xs 0 = length xs"
proof -
  have "fold (\<lambda>x. Suc) xs m = m + length xs" for m
    by (induction xs arbitrary: m) auto
  from this [of 0] show ?thesis by simp
qed

lemma members_map_unit: "length (members (map (\<lambda>s. (s, u)) ss) k) = count_list ss k"
  by (induction ss) (auto simp: members_def)

lemma tally_char:
  "fold (\<lambda>s. upd_default s 0 Suc) ss [] = map (\<lambda>s. (s, count_list ss s)) (first_seen ss)"
proof -
  have "fold (\<lambda>s. upd_default s 0 Suc) ss [] =
        fold (\<lambda>e. upd_default (fst e) 0 ((\<lambda>x. Suc) (snd e))) (map (\<lambda>s. (s, ())) ss) []"
    by (simp add: fold_map comp_def)
  also have "\<dots> = map (\<lambda>k. (k, fold (\<lambda>x. Suc) (members (map (\<lambda>s. (s, ())) ss) k) 0))
                     (first_seen (map fst (map (\<lambda>s. (s, ())) ss)))"
    by (rule fold_upd_default)
  also have "\<dots> = map (\<lambda>s. (s, count_list ss s)) (first_seen ss)"
    by (simp add: fold_const_Suc members_map_unit comp_def)
  finally show ?thesis .
qed

lemma map_of_tabulate:
  "map_of (map (\<lambda>k. (k, c k)) ks) s = (if s \<in> set ks then Some (c s) else None)"
  by (induction ks) auto

lemma sev_count_tally:
  "sev_count (fold (\<lambda>i. upd_default (h i) 0 Suc) ms []) s = count_list (map h ms) s"
proof -
  have "fold (\<lambda>i. upd_default (h i) 0 Suc) ms [] = fold (\<lambda>s. upd_default s 0 Suc) (map h ms) []"
    by (simp add: fold_map comp_def)
  then show ?thesis
    by (simp add: sev_count_def tally_char map_of_tabulate set_first_seen count_list_0_iff)
qed

lemma count_severity_accumulated:
  "count_list (map issue_severity (accumulated rs k)) s =
     (\<Sum>i\<leftarrow>filter (\<lambda>i. issue_severity i = s) rs. count_list (expand i) k)"
proof -
  have r: "count_list (replicate n x) s = (if x = s then n else 0)" for n and x :: string
    by (induction n) auto
  show ?thesis
    by (induction rs) (simp_all add: accumulated_def count_list_append r)
qed

lemma dict_set_upd_default: "dict_set k v = upd_default k d (\<lambda>x. v)"
proof (rule ext)
  fix m show "dict_set k v m = upd_default k d (\<lambda>x. v) m"
    by (induction m) auto
qed

lemma fold_last: "fold (\<lambda>u x. u) us d = (if us = [] then d else last us)"
  by (induction us arbitrary: d) auto

lemma members_map_pair:
  "members (map (\<lambda>i. (f i, g i)) ms) n = map g (filter (\<lambda>i. f i = n) ms)"
  by (induction ms) (auto simp: members_def)

lemma projects_char:
  "fold (\<lambda>i. dict_set (project_name i) (project_url i)) ms [] =
     map (\<lambda>n. (n, project_url (last (filter (\<lambda>i. project_name i = n) ms))))
       (first_seen (map project_name ms))"
proof -
  let ?evs = "map (\<lambda>i. (project_name i, project_url i)) ms"
  have "fold (\<lambda>i. dict_set (project_name i) (project_url i)) ms [] =
        fold (\<lambda>e. upd_default (fst e) [] ((\<lambda>u x. u) (snd e))) ?evs []"
    by (simp add: fold_map comp_def dict_set_upd_default [where d = "[]"])
  also have "\<dots> = map (\<lambda>k. (k, fold (\<lambda>u x. u) (members ?evs k) [])) (first_seen (map fst ?evs))"
    by (rule fold_upd_default)
  also have "\<dots> = map (\<lambda>n. (n, project_url (last (filter (\<lambda>i. project_name i = n) ms))))
       (first_seen (map project_name ms))"
    by (auto simp: fold_last members_map_pair comp_def set_first_seen filter_empty_conv last_map)
  finally show ?thesis .
qed

subsection \<open>Sorting\<close>

lemma sorted_reverse_Nil: "sorted_reverse f [] = []"
  by (simp add: sorted_reverse_def)

lemma set_sorted_reverse: "set (sorted_reverse f xs) = set xs"
  by (simp add: sorted_reverse_def)

lemma sorted_reverse_desc: "sorted_wrt (\<lambda>a b. b \<le> a) (map f (sorted_reverse f xs))"
proof -
  have "sorted_wrt (\<lambda>a b. b \<le> a) (rev (map f (sort_key f (rev xs))))"
    by (simp only: sorted_wrt_rev sorted_sort_key)
  then show ?thesis
    by (simp only: sorted_reverse_def rev_map)
qed

lemma filter_sorted_reverse:
  "filter (\<lambda>x. f x = n) (sorted_reverse f xs) = filter (\<lambda>x. f x = n) xs"
proof -
  have "filter (\<lambda>x. f x = n) (sort_key f (rev xs)) = filter (\<lambda>x. f x = n) (rev xs)"
    by (rule sort_key_stable)
  then show ?thesis
    by (simp add: sorted_reverse_def rev_filter [symmetric])
qed

lemma distinct_map_sorted_reverse:
  "distinct (map h (sorted_reverse f xs)) = distinct (map h xs)"
  by (simp add: sorted_reverse_def distinct_map)

lemma distinct_map_sort: "distinct (map h (sort_key f xs)) = distinct (map h xs)"
  by (simp add: distinct_map)

lemma sorted_fst_sort: "sorted (map fst (sort (ps :: ('a::linorder \<times> 'b::linorder) list)))"
proof -
  have "sorted (sort ps)" by simp
  then have "sorted_wrt (\<lambda>x y. fst x \<le> fst y) (sort ps)"
    by (rule sorted_wrt_mono_rel [rotated]) (auto simp: less_eq_prod_def)
  then show ?thesis by (simp add: sorted_map)
qed

subsection \<open>The output groups\<close>

lemma prepare_cve_cwe_char:
  "prepare_data_cve_cwe rs =
     map cve_cwe_out
       (sorted_reverse (\<lambda>x. length (issues (snd x)))
          (map (\<lambda>k. (k, fold add_to_cve_cwe (accumulated rs k) new_cve_cwe_data))
             (first_seen (concat (map expand rs)))))"
  by (simp add: prepare_data_cve_cwe_def cve_cwe_groups_char members_cve_cwe keys_cve_cwe)

lemma prepare_project_char:
  "prepare_data_project rs =
     map project_out
       (sorted_reverse (\<lambda>x. length (issues (snd x)))
          (map (\<lambda>k. (k, fold add_to_project (of_project rs k) new_project_data))
             (first_seen (map (\<lambda>i. (project_name i, project_url i)) rs))))"
  by (simp add: prepare_data_project_def project_groups_char members_project keys_project)

lemma first_seen_nonempty_cve_cwe:
  "k \<in> set (first_seen (concat (map expand rs))) \<Longrightarrow> accumulated rs k \<noteq> []"
  by (auto simp: set_first_seen accumulated_nonempty)

lemma first_seen_nonempty_project:
  "k \<in> set (first_seen (map (\<lambda>i. (project_name i, project_url i)) rs)) \<Longrightarrow> of_project rs k \<noteq> []"
  by (auto simp: set_first_seen of_project_def filter_empty_conv)

lemma in_prepare_cve_cwe:
  "g \<in> set (prepare_data_cve_cwe rs) \<Longrightarrow>
   \<exists>k. accumulated rs k \<noteq> [] \<and>
       g = cve_cwe_out (k, fold add_to_cve_cwe (accumulated rs k) new_cve_cwe_data)"
proof -
  assume "g \<in> set (prepare_data_cve_cwe rs)"
  then obtain k where "k \<in> set (first_seen (concat (map expand rs)))"
    and "g = cve_cwe_out (k, fold add_to_cve_cwe (accumulated rs k) new_cve_cwe_data)"
    by (auto simp: prepare_cve_cwe_char set_sorted_reverse)
  then show ?thesis
    using first_seen_nonempty_cve_cwe by blast
qed

lemma in_prepare_project:
  "g \<in> set (prepare_data_project rs) \<Longrightarrow>
   \<exists>k. of_project rs k \<noteq> [] \<and>
       g = project_out (k, fold add_to_project (of_project rs k) new_project_data)"
proof -
  assume "g \<in> set (prepare_data_project rs)"
  then obtain k where "k \<in> set (first_seen (map (\<lambda>i. (project_name i, project_url i)) rs))"
    and "g = project_out (k, fold add_to_project (of_project rs k) new_project_data)"
    by (auto simp: prepare_project_char set_sorted_reverse)
  then show ?thesis
    using first_seen_nonempty_project by blast
qed

lemma key_cve_cwe_out: "(g_cve (cve_cwe_out kd), g_cwe (cve_cwe_out kd)) = fst kd"
  by (simp add: cve_cwe_out_def)

lemma group_invariant_cve_cwe:
  assumes "ms \<noteq> []"
  shows "g_total_issues (cve_cwe_out (k, fold add_to_cve_cwe ms new_cve_cwe_data)) =
           sum_list (map snd (g_severity_counts (cve_cwe_out (k, fold add_to_cve_cwe ms new_cve_cwe_data)))) \<and>
         g_fixable_count (cve_cwe_out (k, fold add_to_cve_cwe ms new_cve_cwe_data)) \<le>
           g_total_issues (cve_cwe_out (k, fold add_to_cve_cwe ms new_cve_cwe_data)) \<and>
         1 \<le> g_total_issues (cve_cwe_out (k, fold add_to_cve_cwe ms new_cve_cwe_data))"
  using assms
  by (simp add: cve_cwe_out_def fold_add_to_cve_cwe new_cve_cwe_data_def sum_tally Suc_le_eq)

lemma group_invariant_project:
  assumes "ms \<noteq> []"
  shows "g_total_issues (project_out (k, fold add_to_project ms new_project_data)) =
           sum_list (map snd (g_severity_counts (project_out (k, fold add_to_project ms new_project_data)))) \<and>
         g_fixable_count (project_out (k, fold add_to_project ms new_project_data)) \<le>
           g_total_issues (project_out (k, fold add_to_project ms new_project_data)) \<and>
         1 \<le> g_total_issues (project_out (k, fold add_to_project ms new_project_data))"
  using assms
  by (simp add: project_out_def fold_add_to_project new_project_data_def sum_tally Suc_le_eq)

lemma keys_prepare_cve_cwe:
  "set (map (\<lambda>g. (g_cve g, g_cwe g)) (prepare_data_cve_cwe rs)) = (\<Union>i\<in>set rs. set (expand i)) \<and>
   distinct (map (\<lambda>g. (g_cve g, g_cwe g)) (prepare_data_cve_cwe rs))"
proof -
  have m: "map (\<lambda>g. (g_cve g, g_cwe g)) (map cve_cwe_out xs) = map fst xs" for xs
    by (simp add: comp_def key_cve_cwe_out)
  have "map fst (map (\<lambda>k. (k, c k)) ks) = ks" for ks :: "(string \<times> string) list"
    and c :: "string \<times> string \<Rightarrow> cve_cwe_data"
    by (simp add: comp_def)
  then show ?thesis
    unfolding prepare_cve_cwe_char m
    by (simp add: distinct_map_sorted_reverse set_sorted_reverse set_first_seen
        distinct_first_seen image_image)
qed

lemma keys_prepare_project:
  "set (map (\<lambda>g. (g_project_name g, g_project_url g)) (prepare_data_project rs)) =
     (\<lambda>i. (project_name i, project_url i)) ` set rs \<and>
   distinct (map (\<lambda>g. (g_project_name g, g_project_url g)) (prepare_data_project rs))"
proof -
  have m: "map (\<lambda>g. (g_project_name g, g_project_url g)) (map project_out xs) = map fst xs" for xs
    by (simp add: comp_def project_out_def)
  have "map fst (map (\<lambda>k. (k, c k)) ks) = ks" for ks :: "(string \<times> string) list"
    and c :: "string \<times> string \<Rightarrow> project_data"
    by (simp add: comp_def)
  then show ?thesis
    unfolding prepare_project_char m
    by (simp add: distinct_map_sorted_reverse set_sorted_reverse set_first_seen
        distinct_first_seen image_image)
qed

lemma group_counts_project:
  assumes "g \<in> set (prepare_data_project rs)"
  shows "g_total_issues g =
           length (filter (\<lambda>i. project_name i = g_project_name g \<and> project_url i = g_project_url g) rs)"
proof -
  from assms obtain k where
    g: "g = project_out (k, fold add_to_project (of_project rs k) new_project_data)"
    using in_prepare_project by blast
  have k: "k = (g_project_name g, g_project_url g)"
    by (simp add: g project_out_def)
  have "g_total_issues g = length (of_project rs k)"
    by (simp add: g project_out_def issues_fold_project)
  also have "of_project rs k =
      filter (\<lambda>i. project_name i = g_project_name g \<and> project_url i = g_project_url g) rs"
    by (simp add: of_project_def k)
  finally show ?thesis .
qed

lemma group_counts_cve_cwe:
  assumes "g \<in> set (prepare_data_cve_cwe rs)"
  shows "g_total_issues g = (\<Sum>i\<leftarrow>rs. count_list (expand i) (g_cve g, g_cwe g)) \<and>
         sev_count (g_severity_counts g) s =
           (\<Sum>i\<leftarrow>filter (\<lambda>i. issue_severity i = s) rs. count_list (expand i) (g_cve g, g_cwe g))"
proof -
  from assms obtain k where
    g: "g = cve_cwe_out (k, fold add_to_cve_cwe (accumulated rs k) new_cve_cwe_data)"
    using in_prepare_cve_cwe by blast
  have k: "(g_cve g, g_cwe g) = k"
    by (simp add: g key_cve_cwe_out)
  have "g_total_issues g = length (accumulated rs k)"
    by (simp add: g cve_cwe_out_def issues_fold_cve_cwe)
  moreover have "g_severity_counts g =
      fold (\<lambda>i. upd_default (issue_severity i) 0 Suc) (accumulated rs k) []"
    by (simp add: g cve_cwe_out_def fold_add_to_cve_cwe new_cve_cwe_data_def)
  ultimately show ?thesis
    by (simp add: k length_accumulated sev_count_tally count_severity_accumulated)
qed

lemma group_labels_project:
  assumes "g \<in> set (prepare_data_project rs)"
  shows "set (g_cve_cwe_pairs g) =
           (\<Union>i\<in>{i \<in> set rs. project_name i = g_project_name g \<and> project_url i = g_project_url g}.
              (\<lambda>p. fst p @ '' + '' @ snd p) ` set (expand i))"
proof -
  from assms obtain k where
    g: "g = project_out (k, fold add_to_project (of_project rs k) new_project_data)"
    using in_prepare_project by blast
  have k: "(g_project_name g, g_project_url g) = k"
    by (simp add: g project_out_def)
  have m: "set (of_project rs k) =
      {i \<in> set rs. project_name i = g_project_name g \<and> project_url i = g_project_url g}"
    by (auto simp: of_project_def k [symmetric])
  have "cve_cwe_pairs (fold add_to_project (of_project rs k) new_project_data) =
      (\<Union>i\<in>set (of_project rs k). (\<lambda>p. label (fst p) (snd p)) ` set (expand i))"
    by (simp add: fold_add_to_project new_project_data_def)
  then have "set (g_cve_cwe_pairs g) =
      (\<Union>i\<in>set (of_project rs k). (\<lambda>p. label (fst p) (snd p)) ` set (expand i))"
    by (simp add: g project_out_def)
  then show ?thesis
    by (simp add: m label_def)
qed

lemma projects_of_group:
  assumes "g \<in> set (prepare_data_cve_cwe rs)"
  shows "g_projects g =
           map (\<lambda>p. \<lparr>name = fst p, url = snd p\<rparr>)
             (sort (map (\<lambda>n. (n, last_url (group_records rs (g_cve g, g_cwe g)) n))
                (first_seen (map project_name (accumulated rs (g_cve g, g_cwe g))))))"
proof -
  from assms obtain k where
    g: "g = cve_cwe_out (k, fold add_to_cve_cwe (accumulated rs k) new_cve_cwe_data)"
    using in_prepare_cve_cwe by blast
  have k: "(g_cve g, g_cwe g) = k"
    by (simp add: g key_cve_cwe_out)
  have "projects (fold add_to_cve_cwe (accumulated rs k) new_cve_cwe_data) =
      fold (\<lambda>i. dict_set (project_name i) (project_url i)) (accumulated rs k) []"
    by (simp add: fold_add_to_cve_cwe new_cve_cwe_data_def)
  then have "g_projects g =
      map (\<lambda>p. \<lparr>name = fst p, url = snd p\<rparr>)
        (sort (fold (\<lambda>i. dict_set (project_name i) (project_url i)) (accumulated rs k) []))"
    by (simp add: g cve_cwe_out_def case_prod_beta)
  then show ?thesis
    by (simp add: k projects_char last_url_def last_filter_accumulated)
qed

section \<open>The ingestion loop\<close>

lemma read_rows_acc:
  "read_rows ctor n rows (acc, errs) =
     (acc @ List.map_filter (\<lambda>row. case ctor row of Inr i \<Rightarrow> Some i | Inl e \<Rightarrow> None) rows,
      errs @ List.map_filter (\<lambda>(m, row). case ctor row of Inl e \<Rightarrow> Some (warning m e) | Inr i \<Rightarrow> None)
               (enumerate n rows))"
  by (induction rows arbitrary: n acc errs) (auto simp: List.map_filter_simps split: sum.splits)

section \<open>Properties of the record model and the ingestor\<close>

text \<open>
  C4. Serialising a list of strings to JSON and coercing the cell back gives the same
  list: whenever \<^verbatim>\<open>json.loads\<close> reads back what \<^verbatim>\<open>json.dumps\<close> wrote for the
  list, \<open>parse_json_array\<close> returns that list unchanged.
\<close>

theorem parse_json_array_roundtrip:
  assumes "loads (dumps (PList (map PStr xs))) = Inr (PList (map PStr xs))"
  shows "parse_json_array loads (PStr (dumps (PList (map PStr xs)))) = Inr (PList (map PStr xs))"
  using assms by (simp add: parse_json_array_def)

theorem parse_json_array_roundtrip_witness:
  "ex_loads (ex_dumps (PList (map PStr [''A'', ''B'']))) = Inr (PList (map PStr [''A'', ''B''])) \<and>
   parse_json_array ex_loads (PStr (ex_dumps (PList (map PStr [''A'', ''B''])))) =
     Inr (PList (map PStr [''A'', ''B'']))"
proof -
  have h: "ex_loads (ex_dumps (PList (map PStr [''A'', ''B'']))) = Inr (PList (map PStr [''A'', ''B'']))"
    by (simp add: ex_loads_def ex_dumps_def)
  from h parse_json_array_roundtrip [of ex_loads ex_dumps "[''A'', ''B'']", OF h]
  show ?thesis by simp
qed




text \<open>
  C6. The timestamp coercion maps \<^verbatim>\<open>None\<close> and the empty string to \<^verbatim>\<open>None\<close>. On a
  non-empty string it tries the format with microseconds first and the format without
  them second, returns the first datetime parsed, and succeeds exactly when one of the
  two formats matches; when neither does it raises a \<^verbatim>\<open>ValueError\<close> whose message
  ends with the text that could not be parsed, which fails the validation of the record.
  (\<^verbatim>\<open>strptime\<close> raises nothing but \<^verbatim>\<open>ValueError\<close>.)
\<close>

theorem parse_datetime_formats:
  assumes "\<forall>f. only_raises is_ValueError (strptime s f)"
  shows "parse_datetime strptime PNone = Inr PNone \<and>
         parse_datetime strptime (PStr []) = Inr PNone \<and>
         (s \<noteq> [] \<longrightarrow>
            parse_datetime strptime (PStr s) =
              (case strptime s fmt_micro of
                 Inr d \<Rightarrow> Inr (PDatetime d)
               | Inl e \<Rightarrow>
                   (case strptime s fmt_seconds of
                      Inr d \<Rightarrow> Inr (PDatetime d)
                    | Inl e' \<Rightarrow> Inl (ValueError (''Unable to parse datetime: '' @ s)))) \<and>
            ((\<exists>r. parse_datetime strptime (PStr s) = Inr r) =
               ((\<exists>d. strptime s fmt_micro = Inr d) \<or> (\<exists>d. strptime s fmt_seconds = Inr d))))"
proof -
  from assms have a: "only_raises is_ValueError (strptime s fmt_micro)"
    and b: "only_raises is_ValueError (strptime s fmt_seconds)" by blast+
  show ?thesis
    using a b
    by (auto simp: parse_datetime_def only_raises_def split: sum.splits)
qed

theorem parse_datetime_formats_witness:
  "(\<forall>f. only_raises is_ValueError (ex_strptime ''2024-01-02 03:04:05'' f)) \<and>
   ''2024-01-02 03:04:05'' \<noteq> [] \<and>
   parse_datetime ex_strptime (PStr ''2024-01-02 03:04:05'') =
     Inr (PDatetime (Datetime 2024 1 2 3 4 5 0)) \<and>
   (\<forall>f. only_raises is_ValueError (ex_strptime ''soon'' f)) \<and>
   ''soon'' \<noteq> [] \<and>
   parse_datetime ex_strptime (PStr ''soon'') = Inl (ValueError ''Unable to parse datetime: soon'')"
proof -
  have a: "\<forall>f. only_raises is_ValueError (ex_strptime ''2024-01-02 03:04:05'' f)"
    by (simp add: only_raises_def ex_strptime_def)
  have b: "\<forall>f. only_raises is_ValueError (ex_strptime ''soon'' f)"
    by (simp add: only_raises_def ex_strptime_def)
  show ?thesis
    using a b parse_datetime_formats [where strptime = ex_strptime and s = "''2024-01-02 03:04:05''"]
      parse_datetime_formats [where strptime = ex_strptime and s = "''soon''"]
    by (simp add: ex_strptime_def fmt_micro_def fmt_seconds_def)
qed

text \<open>
  C7. Ingestion returns exactly the records of the rows the constructor accepts, in the
  order of the rows. A row it rejects adds nothing to the result and one line to the
  diagnostic stream, carrying the row's number (the first data row is row 2) and the
  error; the rows after it are processed as before.
\<close>

theorem read_csv_to_models_skips_bad_rows:
  "fst (read_csv_to_models ctor rows) =
     List.map_filter (\<lambda>row. case ctor row of Inr i \<Rightarrow> Some i | Inl e \<Rightarrow> None) rows \<and>
   snd (read_csv_to_models ctor rows) =
     List.map_filter (\<lambda>(m, row). case ctor row of Inl e \<Rightarrow> Some (warning m e) | Inr i \<Rightarrow> None)
       (enumerate 2 rows)"
  by (simp add: read_csv_to_models_def read_rows_acc)

theorem read_csv_to_models_skips_bad_rows_witness:
  "read_csv_to_models ex_ctor ex_rows =
     ([ex_no_ids\<lparr>issue_url := ''u1''\<rparr>, ex_no_ids\<lparr>issue_url := ''u3''\<rparr>],
      [''Warning: Failed to parse row 3: ISSUE_URL: Field required''])"
proof -
  have "List.map_filter (\<lambda>row. case ex_ctor row of Inr i \<Rightarrow> Some i | Inl e \<Rightarrow> None) ex_rows =
      [ex_no_ids\<lparr>issue_url := ''u1''\<rparr>, ex_no_ids\<lparr>issue_url := ''u3''\<rparr>]"
    by (simp add: List.map_filter_simps ex_ctor_def ex_rows_def)
  moreover have "str_nat 3 = ''3''"
    by code_simp
  then have "List.map_filter (\<lambda>(m, row). case ex_ctor row of Inl e \<Rightarrow> Some (warning m e) | Inr i \<Rightarrow> None)
       (enumerate 2 ex_rows) = [''Warning: Failed to parse row 3: ISSUE_URL: Field required'']"
    by (simp add: List.map_filter_simps ex_ctor_def ex_rows_def warning_def)
  ultimately show ?thesis
    using read_csv_to_models_skips_bad_rows [of ex_ctor ex_rows]
    by (simp add: prod_eq_iff)
qed

section \<open>Properties of the aggregator\<close>

text \<open>
  C1. A record is expanded into the Cartesian product of its CVE list (or \<open>[''No CVE'']\<close>
  when that is empty) and its CWE list (or \<open>[''No CWE'']\<close> when that is empty). In the
  cve-cwe strategy the keys of the output groups are, without repetition, exactly the
  pairs of all these products; a record adds to the issue count of a group, and to the
  group's count for the record's severity, once for each occurrence of the group's key in
  its product (exactly once when its lists have no repeated entry), and nothing to any
  other group. In the project strategy the keys of the output groups are, without
  repetition, exactly the (project name, project URL) pairs of the records, every record
  counts once in the group of its pair, and the labels of a group are exactly the strings
  \<open>cve @ '' + '' @ cwe\<close> for the pairs of the products of the records of that project.
\<close>

theorem cartesian_expansion:
  "expand i = List.product (if cve i = [] then [''No CVE''] else cve i)
                (if cwe i = [] then [''No CWE''] else cwe i) \<and>
   set (map (\<lambda>g. (g_cve g, g_cwe g)) (prepare_data_cve_cwe rs)) = (\<Union>i\<in>set rs. set (expand i)) \<and>
   distinct (map (\<lambda>g. (g_cve g, g_cwe g)) (prepare_data_cve_cwe rs)) \<and>
   (\<forall>g\<in>set (prepare_data_cve_cwe rs).
      g_total_issues g = (\<Sum>i\<leftarrow>rs. count_list (expand i) (g_cve g, g_cwe g)) \<and>
      (\<forall>s. sev_count (g_severity_counts g) s =
         (\<Sum>i\<leftarrow>filter (\<lambda>i. issue_severity i = s) rs. count_list (expand i) (g_cve g, g_cwe g)))) \<and>
   set (map (\<lambda>g. (g_project_name g, g_project_url g)) (prepare_data_project rs)) =
     (\<lambda>i. (project_name i, project_url i)) ` set rs \<and>
   distinct (map (\<lambda>g. (g_project_name g, g_project_url g)) (prepare_data_project rs)) \<and>
   (\<forall>g\<in>set (prepare_data_project rs).
      g_total_issues g =
        length (filter (\<lambda>i. project_name i = g_project_name g \<and> project_url i = g_project_url g) rs) \<and>
      set (g_cve_cwe_pairs g) =
        (\<Union>i\<in>{i \<in> set rs. project_name i = g_project_name g \<and> project_url i = g_project_url g}.
           (\<lambda>p. fst p @ '' + '' @ snd p) ` set (expand i))) \<and>
   (distinct (cve i) \<and> distinct (cwe i) \<longrightarrow>
      (\<forall>k. count_list (expand i) k = (if k \<in> set (expand i) then 1 else 0)))"
proof -
  have a: "expand i = List.product (if cve i = [] then [''No CVE''] else cve i)
                (if cwe i = [] then [''No CWE''] else cwe i)"
    by (simp add: expand_def cves_of_def cwes_of_def)
  have b1: "set (map (\<lambda>g. (g_cve g, g_cwe g)) (prepare_data_cve_cwe rs)) = (\<Union>i\<in>set rs. set (expand i))"
    using keys_prepare_cve_cwe [of rs] by (rule conjunct1)
  have b2: "distinct (map (\<lambda>g. (g_cve g, g_cwe g)) (prepare_data_cve_cwe rs))"
    using keys_prepare_cve_cwe [of rs] by (rule conjunct2)
  have c: "\<forall>g\<in>set (prepare_data_cve_cwe rs).
      g_total_issues g = (\<Sum>i\<leftarrow>rs. count_list (expand i) (g_cve g, g_cwe g)) \<and>
      (\<forall>s. sev_count (g_severity_counts g) s =
         (\<Sum>i\<leftarrow>filter (\<lambda>i. issue_severity i = s) rs. count_list (expand i) (g_cve g, g_cwe g)))"
  proof (intro ballI conjI allI)
    fix g assume g: "g \<in> set (prepare_data_cve_cwe rs)"
    show "g_total_issues g = (\<Sum>i\<leftarrow>rs. count_list (expand i) (g_cve g, g_cwe g))"
      using group_counts_cve_cwe [OF g] by (rule conjunct1)
  next
    fix g s assume g: "g \<in> set (prepare_data_cve_cwe rs)"
    show "sev_count (g_severity_counts g) s =
         (\<Sum>i\<leftarrow>filter (\<lambda>i. issue_severity i = s) rs. count_list (expand i) (g_cve g, g_cwe g))"
      using group_counts_cve_cwe [OF g, of s] by (rule conjunct2)
  qed
  have p1: "set (map (\<lambda>g. (g_project_name g, g_project_url g)) (prepare_data_project rs)) =
     (\<lambda>i. (project_name i, project_url i)) ` set rs"
    using keys_prepare_project [of rs] by (rule conjunct1)
  have p2: "distinct (map (\<lambda>g. (g_project_name g, g_project_url g)) (prepare_data_project rs))"
    using keys_prepare_project [of rs] by (rule conjunct2)
  have d: "\<forall>g\<in>set (prepare_data_project rs).
      g_total_issues g =
        length (filter (\<lambda>i. project_name i = g_project_name g \<and> project_url i = g_project_url g) rs) \<and>
      set (g_cve_cwe_pairs g) =
        (\<Union>i\<in>{i \<in> set rs. project_name i = g_project_name g \<and> project_url i = g_project_url g}.
           (\<lambda>p. fst p @ '' + '' @ snd p) ` set (expand i))"
  proof (intro ballI conjI)
    fix g assume g: "g \<in> set (prepare_data_project rs)"
    show "g_total_issues g =
        length (filter (\<lambda>i. project_name i = g_project_name g \<and> project_url i = g_project_url g) rs)"
      using g by (rule group_counts_project)
    show "set (g_cve_cwe_pairs g) =
        (\<Union>i\<in>{i \<in> set rs. project_name i = g_project_name g \<and> project_url i = g_project_url g}.
           (\<lambda>p. fst p @ '' + '' @ snd p) ` set (expand i))"
      using g by (rule group_labels_project)
  qed
  have e: "distinct (cve i) \<and> distinct (cwe i) \<longrightarrow>
      (\<forall>k. count_list (expand i) k = (if k \<in> set (expand i) then 1 else 0))"
  proof (intro impI allI)
    fix k assume "distinct (cve i) \<and> distinct (cwe i)"
    then have "distinct (expand i)" by (simp add: distinct_expand)
    then show "count_list (expand i) k = (if k \<in> set (expand i) then 1 else 0)"
      by (rule count_list_distinct)
  qed
  show ?thesis
    by (intro conjI a b1 b2 c p1 p2 d e)
qed

theorem cartesian_expansion_witness:
  "expand ex_no_ids = [(''No CVE'', ''No CWE'')] \<and>
   distinct (cve ex_two_cves) \<and> distinct (cwe ex_two_cves) \<and>
   count_list (expand ex_two_cves) (''CVE-1'', ''CWE-A'') = 1 \<and>
   set (map (\<lambda>g. (g_cve g, g_cwe g)) (prepare_data_cve_cwe [ex_two_cves])) =
     {(''CVE-1'', ''CWE-A''), (''CVE-2'', ''CWE-A'')} \<and>
   length (prepare_data_cve_cwe [ex_two_cves]) = 2 \<and>
   hd (prepare_data_cve_cwe [ex_two_cves]) \<in> set (prepare_data_cve_cwe [ex_two_cves]) \<and>
   g_total_issues (hd (prepare_data_cve_cwe [ex_two_cves])) = 1 \<and>
   sev_count (g_severity_counts (hd (prepare_data_cve_cwe [ex_two_cves]))) ''high'' = 1 \<and>
   set (map (\<lambda>g. (g_project_name g, g_project_url g)) (prepare_data_project ex_two_projects)) =
     {(''api'', ''https://app/api''), (''web'', ''https://app/web'')} \<and>
   length (prepare_data_project ex_two_projects) = 2 \<and>
   hd (prepare_data_project ex_two_projects) \<in> set (prepare_data_project ex_two_projects) \<and>
   g_total_issues (hd (prepare_data_project ex_two_projects)) = 2 \<and>
   set (g_cve_cwe_pairs (hd (prepare_data_project ex_two_projects))) =
     {''No CVE + No CWE'', ''CVE-1 + CWE-A'', ''CVE-2 + CWE-A''}"
proof -
  have e: "expand ex_two_cves = [(''CVE-1'', ''CWE-A''), (''CVE-2'', ''CWE-A'')]"
    "expand ex_no_ids = [(''No CVE'', ''No CWE'')]"
    by code_simp+
  have s: "issue_severity ex_two_cves = ''high''"
    by code_simp
  have l: "length (prepare_data_cve_cwe [ex_two_cves]) = 2"
    by code_simp
  have m: "hd (prepare_data_cve_cwe [ex_two_cves]) \<in> set (prepare_data_cve_cwe [ex_two_cves])"
    by code_simp
  have k: "g_cve (hd (prepare_data_cve_cwe [ex_two_cves])) = ''CVE-1''"
    "g_cwe (hd (prepare_data_cve_cwe [ex_two_cves])) = ''CWE-A''"
    by code_simp+
  have pl: "length (prepare_data_project ex_two_projects) = 2"
    by code_simp
  have pm: "hd (prepare_data_project ex_two_projects) \<in> set (prepare_data_project ex_two_projects)"
    by code_simp
  have pk: "g_project_name (hd (prepare_data_project ex_two_projects)) = ''api''"
    "g_project_url (hd (prepare_data_project ex_two_projects)) = ''https://app/api''"
    by code_simp+
  have pn: "project_name ex_no_ids = ''api''" "project_url ex_no_ids = ''https://app/api''"
    "project_name ex_web = ''web''" "project_url ex_web = ''https://app/web''"
    "project_name ex_two_cves = ''api''" "project_url ex_two_cves = ''https://app/api''"
    by code_simp+
  have c: "cve ex_no_ids = []" "cwe ex_no_ids = []"
    by code_simp+
  have d: "distinct (cve ex_two_cves) \<and> distinct (cwe ex_two_cves)"
    by code_simp
  note none = cartesian_expansion [of ex_no_ids "[ex_two_cves]"]
  note two = cartesian_expansion [of ex_two_cves "[ex_two_cves]"]
  note proj = cartesian_expansion [of ex_two_cves ex_two_projects]
  note rest3 = conjunct2 [THEN conjunct2, THEN conjunct2]
  from none have "expand ex_no_ids = List.product (if cve ex_no_ids = [] then [''No CVE''] else cve ex_no_ids)
      (if cwe ex_no_ids = [] then [''No CWE''] else cwe ex_no_ids)"
    by (rule conjunct1)
  then have t1: "expand ex_no_ids = [(''No CVE'', ''No CWE'')]"
    by (simp add: c)
  note once = two [THEN rest3, THEN rest3, THEN conjunct2, THEN mp, OF d, THEN spec,
      of "(''CVE-1'', ''CWE-A'')"]
  from once have t2: "count_list (expand ex_two_cves) (''CVE-1'', ''CWE-A'') = 1"
    by (simp only: e) simp
  from two [THEN conjunct2, THEN conjunct1]
  have t3: "set (map (\<lambda>g. (g_cve g, g_cwe g)) (prepare_data_cve_cwe [ex_two_cves])) =
      {(''CVE-1'', ''CWE-A''), (''CVE-2'', ''CWE-A'')}"
    by (simp add: e)
  note grp = two [THEN rest3, THEN conjunct1, THEN bspec, OF m, unfolded k]
  from grp [THEN conjunct1] grp [THEN conjunct2, THEN spec, of "''high''"]
  have t4: "g_total_issues (hd (prepare_data_cve_cwe [ex_two_cves])) = 1 \<and>
      sev_count (g_severity_counts (hd (prepare_data_cve_cwe [ex_two_cves]))) ''high'' = 1"
    by (simp add: e s)
  from proj [THEN rest3, THEN conjunct2, THEN conjunct1]
  have t5: "set (map (\<lambda>g. (g_project_name g, g_project_url g)) (prepare_data_project ex_two_projects)) =
      {(''api'', ''https://app/api''), (''web'', ''https://app/web'')}"
    by (auto simp: ex_two_projects_def pn)
  note pgrp = proj [THEN rest3, THEN rest3, THEN conjunct1, THEN bspec, OF pm, unfolded pk]
  from pgrp [THEN conjunct1]
  have t6: "g_total_issues (hd (prepare_data_project ex_two_projects)) = 2"
    by (simp add: pn ex_two_projects_def)
  have "{i \<in> set ex_two_projects. project_name i = ''api'' \<and> project_url i = ''https://app/api''} =
        {ex_no_ids, ex_two_cves}"
    by (auto simp: pn ex_two_projects_def)
  with pgrp [THEN conjunct2]
  have t7: "set (g_cve_cwe_pairs (hd (prepare_data_project ex_two_projects))) =
      {''No CVE + No CWE'', ''CVE-1 + CWE-A'', ''CVE-2 + CWE-A''}"
    by (auto simp: e)
  from t1 d t2 t3 l m t4 t5 pl pm t6 t7 show ?thesis
    by (simp only: simp_thms)
qed

text \<open>
  C2. For both strategies the output groups are in descending order of their issue
  counts, and the groups with one and the same issue count appear in the order in which
  their keys were first met in the input.
\<close>

theorem groups_sorted_stable:
  "sorted_wrt (\<lambda>a b. b \<le> a) (map g_total_issues (prepare_data_cve_cwe rs)) \<and>
   map (\<lambda>g. (g_cve g, g_cwe g)) (filter (\<lambda>g. g_total_issues g = n) (prepare_data_cve_cwe rs)) =
     filter (\<lambda>k. length (accumulated rs k) = n) (first_seen (concat (map expand rs))) \<and>
   sorted_wrt (\<lambda>a b. b \<le> a) (map g_total_issues (prepare_data_project rs)) \<and>
   map (\<lambda>g. (g_project_name g, g_project_url g))
       (filter (\<lambda>g. g_total_issues g = n) (prepare_data_project rs)) =
     filter (\<lambda>k. length (of_project rs k) = n)
       (first_seen (map (\<lambda>i. (project_name i, project_url i)) rs))"
proof (intro conjI)
  let ?len = "\<lambda>x :: (string \<times> string) \<times> cve_cwe_data. length (issues (snd x))"
  let ?plen = "\<lambda>x :: (string \<times> string) \<times> project_data. length (issues (snd x))"
  have t: "g_total_issues \<circ> cve_cwe_out = ?len"
    by (simp add: fun_eq_iff cve_cwe_out_def)
  have pt: "g_total_issues \<circ> project_out = ?plen"
    by (simp add: fun_eq_iff project_out_def)
  show "sorted_wrt (\<lambda>a b. b \<le> a) (map g_total_issues (prepare_data_cve_cwe rs))"
    by (simp add: prepare_data_cve_cwe_def t sorted_reverse_desc)
  show "sorted_wrt (\<lambda>a b. b \<le> a) (map g_total_issues (prepare_data_project rs))"
    by (simp add: prepare_data_project_def pt sorted_reverse_desc)
  have "filter (\<lambda>g. g_total_issues g = n) (map cve_cwe_out xs) =
        map cve_cwe_out (filter (\<lambda>x. ?len x = n) xs)" for xs
    by (simp add: filter_map comp_def cve_cwe_out_def)
  then show "map (\<lambda>g. (g_cve g, g_cwe g)) (filter (\<lambda>g. g_total_issues g = n) (prepare_data_cve_cwe rs)) =
     filter (\<lambda>k. length (accumulated rs k) = n) (first_seen (concat (map expand rs)))"
    by (simp add: prepare_cve_cwe_char filter_sorted_reverse filter_map comp_def
        issues_fold_cve_cwe cve_cwe_out_def)
  have "filter (\<lambda>g. g_total_issues g = n) (map project_out xs) =
        map project_out (filter (\<lambda>x. ?plen x = n) xs)" for xs
    by (simp add: filter_map comp_def project_out_def)
  then show "map (\<lambda>g. (g_project_name g, g_project_url g))
       (filter (\<lambda>g. g_total_issues g = n) (prepare_data_project rs)) =
     filter (\<lambda>k. length (of_project rs k) = n)
       (first_seen (map (\<lambda>i. (project_name i, project_url i)) rs))"
    by (simp add: prepare_project_char filter_sorted_reverse filter_map comp_def
        issues_fold_project project_out_def)
qed

theorem groups_sorted_stable_witness:
  "map g_total_issues (prepare_data_cve_cwe ex_two_projects) = [2, 1, 1] \<and>
   first_seen (concat (map expand ex_two_projects)) =
     [(''No CVE'', ''No CWE''), (''CVE-1'', ''CWE-A''), (''CVE-2'', ''CWE-A'')] \<and>
   map (\<lambda>g. (g_cve g, g_cwe g))
     (filter (\<lambda>g. g_total_issues g = 1) (prepare_data_cve_cwe ex_two_projects)) =
     [(''No CVE'', ''No CWE''), (''CVE-2'', ''CWE-A'')]"
proof -
  have a: "map g_total_issues (prepare_data_cve_cwe ex_two_projects) = [2, 1, 1]"
    by code_simp
  have b: "first_seen (concat (map expand ex_two_projects)) =
      [(''No CVE'', ''No CWE''), (''CVE-1'', ''CWE-A''), (''CVE-2'', ''CWE-A'')]"
    by code_simp
  have c: "filter (\<lambda>k. length (accumulated ex_two_projects k) = 1)
      [(''No CVE'', ''No CWE''), (''CVE-1'', ''CWE-A''), (''CVE-2'', ''CWE-A'')] =
      [(''No CVE'', ''No CWE''), (''CVE-2'', ''CWE-A'')]"
    by code_simp
  from groups_sorted_stable [of ex_two_projects 1] a b c
  show ?thesis by simp
qed

text \<open>
  C3. The global fixable count is the number of records whose fixability is exactly the
  string \<open>''Fixable''\<close>: a record whose fixability is \<open>''fixable''\<close> or
  \<open>''Partially Fixable''\<close> adds nothing to it.
\<close>

theorem fixable_count_exact:
  "r_fixable_count (prepare_data xs gb) = length (filter (\<lambda>i. computed_fixability i = ''Fixable'') xs) \<and>
   r_fixable_count (prepare_data (xs @ [i\<lparr>computed_fixability := ''fixable''\<rparr>] @ ys) gb) =
     r_fixable_count (prepare_data (xs @ ys) gb) \<and>
   r_fixable_count (prepare_data (xs @ [i\<lparr>computed_fixability := ''Partially Fixable''\<rparr>] @ ys) gb) =
     r_fixable_count (prepare_data (xs @ ys) gb)"
proof -
  have "sum_list (map (\<lambda>i. 1) zs) = length zs" for zs :: "snyk_issue list"
    by (induction zs) auto
  then show ?thesis
    by (simp add: prepare_data_def Let_def)
qed

text \<open>
  C8. On the empty list of records the summary has no issues, no groups, an empty
  severity histogram, no fixable record and an empty sequence of groups, whatever the
  strategy.
\<close>

theorem prepare_data_empty:
  "r_total_issues (prepare_data [] gb) = 0 \<and>
   r_total_groups (prepare_data [] gb) = 0 \<and>
   r_severity_counts (prepare_data [] gb) = [] \<and>
   r_fixable_count (prepare_data [] gb) = 0 \<and>
   r_groups (prepare_data [] gb) = (if gb = ''project'' then ProjectGroups [] else CveCweGroups []) \<and>
   prepare_data_cve_cwe [] = [] \<and>
   prepare_data_project [] = []"
  by (simp add: prepare_data_def Let_def prepare_data_cve_cwe_def prepare_data_project_def
      cve_cwe_groups_def project_groups_def sorted_reverse_Nil)

text \<open>
  C9, as the code has it. In the cve-cwe strategy the projects of an output group are
  sorted by project name and hold one entry for each project name of the records
  accumulated into the group, with the URL of the last of these records that bears the
  name. So they are the distinct (project name, project URL) pairs of these records
  whenever records of the group with equal project names have equal project URLs.
\<close>

theorem projects_last_url_by_name:
  "\<forall>g\<in>set (prepare_data_cve_cwe rs).
     sorted (map name (g_projects g)) \<and>
     distinct (map name (g_projects g)) \<and>
     set (g_projects g) =
       (\<lambda>i. \<lparr>name = project_name i,
              url = last_url (group_records rs (g_cve g, g_cwe g)) (project_name i)\<rparr>) `
         set (group_records rs (g_cve g, g_cwe g)) \<and>
     ((\<forall>i\<in>set (group_records rs (g_cve g, g_cwe g)).
         \<forall>j\<in>set (group_records rs (g_cve g, g_cwe g)).
           project_name i = project_name j \<longrightarrow> project_url i = project_url j) \<longrightarrow>
      set (g_projects g) = project_pair ` set (group_records rs (g_cve g, g_cwe g)))"
proof
  fix g assume m: "g \<in> set (prepare_data_cve_cwe rs)"
  let ?ms = "group_records rs (g_cve g, g_cwe g)"
  let ?ps = "map (\<lambda>n. (n, last_url ?ms n))
               (first_seen (map project_name (accumulated rs (g_cve g, g_cwe g))))"
  have p: "g_projects g = map (\<lambda>p. \<lparr>name = fst p, url = snd p\<rparr>) (sort ?ps)"
    using m by (rule projects_of_group)
  have n: "map name (g_projects g) = map fst (sort ?ps)"
    by (simp add: p comp_def)
  have s: "sorted (map name (g_projects g))"
    unfolding n by (rule sorted_fst_sort)
  have "distinct (map fst ?ps)"
    by (simp add: comp_def distinct_first_seen)
  then have d: "distinct (map name (g_projects g))"
    unfolding n by (simp only: distinct_map_sort)
  have e: "set (g_projects g) =
       (\<lambda>i. \<lparr>name = project_name i, url = last_url ?ms (project_name i)\<rparr>) ` set ?ms"
    by (simp add: p set_first_seen set_group_records image_image)
  have f: "set (g_projects g) = project_pair ` set ?ms"
    if same: "\<forall>i\<in>set ?ms. \<forall>j\<in>set ?ms. project_name i = project_name j \<longrightarrow> project_url i = project_url j"
  proof -
    have eq: "last_url ?ms (project_name i) = project_url i" if i: "i \<in> set ?ms" for i
    proof -
      let ?fs = "filter (\<lambda>j. project_name j = project_name i) ?ms"
      from i have "?fs \<noteq> []" by (auto simp: filter_empty_conv)
      then have "last ?fs \<in> set ?fs" by (rule last_in_set)
      then have l: "last ?fs \<in> set ?ms" "project_name (last ?fs) = project_name i" by auto
      from same l i have "project_url (last ?fs) = project_url i" by blast
      then show ?thesis by (simp only: last_url_def)
    qed
    show ?thesis
      unfolding e
    proof (rule image_cong)
      show "set ?ms = set ?ms" ..
    next
      fix i assume "i \<in> set ?ms"
      then show "\<lparr>name = project_name i, url = last_url ?ms (project_name i)\<rparr> = project_pair i"
        by (simp add: eq project_pair_def)
    qed
  qed
  from s d e f show "sorted (map name (g_projects g)) \<and>
     distinct (map name (g_projects g)) \<and>
     set (g_projects g) =
       (\<lambda>i. \<lparr>name = project_name i, url = last_url ?ms (project_name i)\<rparr>) ` set ?ms \<and>
     ((\<forall>i\<in>set ?ms. \<forall>j\<in>set ?ms. project_name i = project_name j \<longrightarrow> project_url i = project_url j) \<longrightarrow>
      set (g_projects g) = project_pair ` set ?ms)"
    by blast
qed

theorem projects_last_url_by_name_witness:
  "hd (prepare_data_cve_cwe ex_two_projects) \<in> set (prepare_data_cve_cwe ex_two_projects) \<and>
   group_records ex_two_projects (''CVE-1'', ''CWE-A'') = [ex_web, ex_two_cves] \<and>
   g_projects (hd (prepare_data_cve_cwe ex_two_projects)) =
     [\<lparr>name = ''api'', url = ''https://app/api''\<rparr>, \<lparr>name = ''web'', url = ''https://app/web''\<rparr>] \<and>
   sorted (map name (g_projects (hd (prepare_data_cve_cwe ex_two_projects)))) \<and>
   set (g_projects (hd (prepare_data_cve_cwe ex_two_projects))) = {project_pair ex_web, project_pair ex_two_cves}"
proof -
  have m: "hd (prepare_data_cve_cwe ex_two_projects) \<in> set (prepare_data_cve_cwe ex_two_projects)"
    by code_simp
  have k: "g_cve (hd (prepare_data_cve_cwe ex_two_projects)) = ''CVE-1''"
    "g_cwe (hd (prepare_data_cve_cwe ex_two_projects)) = ''CWE-A''"
    by code_simp+
  have r: "group_records ex_two_projects (''CVE-1'', ''CWE-A'') = [ex_web, ex_two_cves]"
    by code_simp
  have n: "project_name ex_web \<noteq> project_name ex_two_cves"
    by code_simp
  have p: "g_projects (hd (prepare_data_cve_cwe ex_two_projects)) =
     [\<lparr>name = ''api'', url = ''https://app/api''\<rparr>, \<lparr>name = ''web'', url = ''https://app/web''\<rparr>]"
    by code_simp
  have c: "\<forall>i\<in>set (group_records ex_two_projects (''CVE-1'', ''CWE-A'')).
        \<forall>j\<in>set (group_records ex_two_projects (''CVE-1'', ''CWE-A'')).
          project_name i = project_name j \<longrightarrow> project_url i = project_url j"
    using n by (auto simp: r)
  note t = projects_last_url_by_name [of ex_two_projects, THEN bspec, OF m, unfolded k]
  from t have "sorted (map name (g_projects (hd (prepare_data_cve_cwe ex_two_projects))))"
    by (rule conjunct1)
  moreover from t c have "set (g_projects (hd (prepare_data_cve_cwe ex_two_projects))) =
      project_pair ` set (group_records ex_two_projects (''CVE-1'', ''CWE-A''))"
    by blast
  ultimately show ?thesis
    by (simp add: m r p)
qed

theorem projects_distinct_pairs_counterexample:
  "prepare_data_cve_cwe ex_same_name =
     [\<lparr>g_total_issues = 2, g_fixable_count = 1,
       g_severity_counts = [(''high'', 1), (''low'', 1)],
       g_problem_titles = [''Prototype Pollution''],
       g_cve = ''CVE-1'', g_cwe = ''CWE-A'',
       g_projects = [\<lparr>name = ''api'', url = ''https://app/api-v2''\<rparr>]\<rparr>,
      \<lparr>g_total_issues = 1, g_fixable_count = 1,
       g_severity_counts = [(''high'', 1)],
       g_problem_titles = [''Prototype Pollution''],
       g_cve = ''CVE-2'', g_cwe = ''CWE-A'',
       g_projects = [\<lparr>name = ''api'', url = ''https://app/api''\<rparr>]\<rparr>] \<and>
   map project_pair (group_records ex_same_name (''CVE-1'', ''CWE-A'')) =
     [\<lparr>name = ''api'', url = ''https://app/api''\<rparr>, \<lparr>name = ''api'', url = ''https://app/api-v2''\<rparr>] \<and>
   set (g_projects (hd (prepare_data_cve_cwe ex_same_name))) \<noteq>
     set (map project_pair (group_records ex_same_name (''CVE-1'', ''CWE-A'')))"
  by code_simp

text \<open>
  C10. Every output group of either strategy has an issue count equal to the sum of its
  severity counts, a fixable count no larger than its issue count, and at least one
  issue.
\<close>

theorem group_invariants:
  "(\<forall>g\<in>set (prepare_data_cve_cwe rs).
      g_total_issues g = sum_list (map snd (g_severity_counts g)) \<and>
      g_fixable_count g \<le> g_total_issues g \<and> 1 \<le> g_total_issues g) \<and>
   (\<forall>g\<in>set (prepare_data_project rs).
      g_total_issues g = sum_list (map snd (g_severity_counts g)) \<and>
      g_fixable_count g \<le> g_total_issues g \<and> 1 \<le> g_total_issues g)"
proof -
  have a: "g_total_issues g = sum_list (map snd (g_severity_counts g)) \<and>
      g_fixable_count g \<le> g_total_issues g \<and> 1 \<le> g_total_issues g"
    if "g \<in> set (prepare_data_cve_cwe rs)" for g
  proof -
    from that obtain k where "accumulated rs k \<noteq> []"
      and "g = cve_cwe_out (k, fold add_to_cve_cwe (accumulated rs k) new_cve_cwe_data)"
      using in_prepare_cve_cwe by blast
    then show ?thesis
      using group_invariant_cve_cwe by blast
  qed
  have b: "g_total_issues g = sum_list (map snd (g_severity_counts g)) \<and>
      g_fixable_count g \<le> g_total_issues g \<and> 1 \<le> g_total_issues g"
    if "g \<in> set (prepare_data_project rs)" for g
  proof -
    from that obtain k where "of_project rs k \<noteq> []"
      and "g = project_out (k, fold add_to_project (of_project rs k) new_project_data)"
      using in_prepare_project by blast
    then show ?thesis
      using group_invariant_project by blast
  qed
  from a b show ?thesis by blast
qed

theorem group_invariants_witness:
  "hd (prepare_data_cve_cwe ex_two_projects) \<in> set (prepare_data_cve_cwe ex_two_projects) \<and>
   g_severity_counts (hd (prepare_data_cve_cwe ex_two_projects)) = [(''medium'', 1), (''high'', 1)] \<and>
   g_total_issues (hd (prepare_data_cve_cwe ex_two_projects)) = 2 \<and>
   g_fixable_count (hd (prepare_data_cve_cwe ex_two_projects)) \<le> 2 \<and>
   hd (prepare_data_project ex_two_projects) \<in> set (prepare_data_project ex_two_projects) \<and>
   g_severity_counts (hd (prepare_data_project ex_two_projects)) = [(''low'', 1), (''high'', 1)] \<and>
   g_total_issues (hd (prepare_data_project ex_two_projects)) = 2 \<and>
   g_fixable_count (hd (prepare_data_project ex_two_projects)) \<le> 2"
proof -
  have m: "hd (prepare_data_cve_cwe ex_two_projects) \<in> set (prepare_data_cve_cwe ex_two_projects)"
    by code_simp
  have s: "g_severity_counts (hd (prepare_data_cve_cwe ex_two_projects)) = [(''medium'', 1), (''high'', 1)]"
    by code_simp
  have pm: "hd (prepare_data_project ex_two_projects) \<in> set (prepare_data_project ex_two_projects)"
    by code_simp
  have ps: "g_severity_counts (hd (prepare_data_project ex_two_projects)) = [(''low'', 1), (''high'', 1)]"
    by code_simp
  from group_invariants [of ex_two_projects] m pm
  have "g_total_issues (hd (prepare_data_cve_cwe ex_two_projects)) =
      sum_list (map snd (g_severity_counts (hd (prepare_data_cve_cwe ex_two_projects)))) \<and>
    g_fixable_count (hd (prepare_data_cve_cwe ex_two_projects)) \<le>
      g_total_issues (hd (prepare_data_cve_cwe ex_two_projects)) \<and>
    g_total_issues (hd (prepare_data_project ex_two_projects)) =
      sum_list (map snd (g_severity_counts (hd (prepare_data_project ex_two_projects)))) \<and>
    g_fixable_count (hd (prepare_data_project ex_two_projects)) \<le>
      g_total_issues (hd (prepare_data_project ex_two_projects))"
    by blast
  then show ?thesis
    by (simp add: m s pm ps)
qed

end
